theory Spec2Isabelle
  imports Main "HOL-Library.AList"
begin

section \<open>The external-process wrapper (restic.go)\<close>

text \<open>
  \<^verbatim>\<open>Restic\<close> holds pointers to two byte buffers; the model holds the bytes the buffers
  contain. What \<^verbatim>\<open>fmt.Println\<close> writes is kept in \<open>console\<close>. The type
  \<^verbatim>\<open>Repository\<close> is declared in another file of the repository; \<^verbatim>\<open>core\<close> reads its fields
  \<^verbatim>\<open>Path\<close> and \<^verbatim>\<open>Password\<close> only. Receivers and pointer fields are taken to be
  allocated, as the constructors \<^verbatim>\<open>NewRestic\<close> and \<^verbatim>\<open>NewScheduler\<close> leave them.
\<close>

record Repository =
  Path :: string
  Password :: string

record Restic =
  errb :: string
  outb :: string
  console :: "string list"

text \<open>
  What the operating system answers to \<^verbatim>\<open>c.Start()\<close> and \<^verbatim>\<open>c.Wait()\<close>: the command
  does not start, or it runs, \<^verbatim>\<open>Wait\<close> returns an error or none, and the two pipes have
  collected the bytes written to them.
\<close>

datatype ProcOutcome =
    StartFailed string
  | Exited "string option" string string

type_synonym Exec = "string \<Rightarrow> string list \<Rightarrow> string list \<Rightarrow> ProcOutcome"

definition core ::
  "Exec \<Rightarrow> string list \<Rightarrow> Restic \<Rightarrow> Repository \<Rightarrow> string list \<Rightarrow> string list
    \<Rightarrow> Restic \<times> string \<times> string option" where
  "core run environ r repository cmd envs =
     (let cmds = [''-r'', Path repository, ''--json''] @ cmd;
          env = environ @ [''RESTIC_PASSWORD='' @ Password repository]
      in case run ''/usr/bin/restic'' cmds env of
           StartFailed e \<Rightarrow>
             (r\<lparr>console := console r @ [e], errb := errb r @ [], outb := outb r @ []\<rparr>,
              [], None)
         | Exited werr sout serr \<Rightarrow>
             (r\<lparr>errb := errb r @ serr, outb := outb r @ sout\<rparr>, sout, None))"

definition Unlock :: "Exec \<Rightarrow> string list \<Rightarrow> Restic \<Rightarrow> Repository \<Rightarrow> Restic" where
  "Unlock run environ r repository =
     (case core run environ r repository [''unlock''] [] of
        (r', _, Some err) \<Rightarrow> r'\<lparr>console := console r' @ [''ERROR '' @ err]\<rparr>
      | (r', _, None) \<Rightarrow> r')"

definition Check ::
  "Exec \<Rightarrow> string list \<Rightarrow> Restic \<Rightarrow> Repository \<Rightarrow> Restic \<times> string option" where
  "Check run environ r repository =
     (case core run environ r repository [''check''] [] of
        (r', _, Some err) \<Rightarrow> (r', Some err)
      | (r', _, None) \<Rightarrow> (r', None))"

definition Initialize ::
  "Exec \<Rightarrow> string list \<Rightarrow> Restic \<Rightarrow> Repository \<Rightarrow> Restic \<times> string option" where
  "Initialize run environ r repository =
     (case core run environ r repository [''init''] [] of
        (r', _, Some err) \<Rightarrow> (r', Some err)
      | (r', _, None) \<Rightarrow> (r', None))"

section \<open>The scheduling engine (internal/scheduler.go)\<close>

subsection \<open>Data\<close>

text \<open>
  \<^verbatim>\<open>Schedule\<close> and \<^verbatim>\<open>ChanMsg\<close> are declared in another file of the repository. The
  records carry the fields of the spec's data model; of a schedule the scheduler reads
  \<^verbatim>\<open>Id\<close>, \<^verbatim>\<open>Cron\<close>, \<^verbatim>\<open>BackupId\<close> and \<^verbatim>\<open>ToRepositoryId\<close>. An instant is a number of
  nanoseconds, as \<^verbatim>\<open>time.Duration\<close> counts them.
\<close>

record Schedule =
  Schedule_Id :: string
  Cron :: string
  BackupId :: string
  ToRepositoryId :: string
  FromRepositoryId :: string

record ChanMsg =
  ChanMsg_Id :: string
  Msg :: string
  Time :: nat

text \<open>
  The timer runner is the library gocron. A job definition is either a one-shot at
  \<^verbatim>\<open>t.AddDate(years, months, days)\<close>, kept unevaluated, or a cron expression with the
  \<^verbatim>\<open>withSeconds\<close> flag. A task registered with the runner keeps the definition, the
  name given by \<^verbatim>\<open>WithName\<close> and the tags given by \<^verbatim>\<open>WithTags\<close>.
\<close>

datatype StartAt = AddDate nat nat nat nat

datatype JobDefinition =
    OneTimeJob StartAt
  | CronJob string bool

record Task =
  Task_uuid :: nat
  Task_def :: JobDefinition
  Task_name :: string
  Task_tags :: "string list"

text \<open>
  \<^verbatim>\<open>Ctx\<close> and \<^verbatim>\<open>Cancel\<close> refer to a context object on the heap: both fields hold its
  address, and the heap (\<open>Ctxs\<close> below) says whether that context has been cancelled.
\<close>

record Job =
  Job_Id :: string
  job :: Task
  Job_Schedule :: Schedule
  Running :: bool
  Force :: bool
  Ctx :: nat
  Cancel :: nat

datatype LogLevel = LogDebug | LogInfo | LogError

type_synonym LogEntry = "LogLevel \<times> string \<times> string list"

text \<open>
  The accesses to the mutex \<^verbatim>\<open>jmu\<close> and the writes to \<^verbatim>\<open>s.Jobs\<close> and to the fields of
  its elements, in program order.
\<close>

datatype Access =
    MuLock
  | MuUnlock
  | WriteJobs
  | WriteRunning nat
  | WriteForce nat
  | WriteCtx nat
  | WriteCancel nat

text \<open>
  The scheduler with what its pointers reach: the tasks registered with the runner and
  the runs requested from it, the schedules of \<^verbatim>\<open>settings.Config\<close>, the two channels
  (the messages sent, oldest first), the heap of contexts, the log and the access trace.
\<close>

record Scheduler =
  Gocron :: "Task list"
  RunNowRequests :: "nat list"
  Jobs :: "Job list"
  Schedules :: "Schedule list"
  LastRun :: "string \<Rightarrow> string option"
  OutputCh :: "ChanMsg list"
  ErrorCh :: "ChanMsg list"
  Ctxs :: "bool list"
  logged :: "LogEntry list"
  jmu_trace :: "Access list"

subsection \<open>Helpers\<close>

text \<open>
  \<^verbatim>\<open>for i, j := range xs { if P(j) { ...; break } }\<close> runs its body at the first index
  whose element satisfies \<open>P\<close>, and not at all when there is none.
\<close>

fun first_index :: "('a \<Rightarrow> bool) \<Rightarrow> 'a list \<Rightarrow> nat option" where
  "first_index P [] = None"
| "first_index P (x # xs) = (if P x then Some 0 else map_option Suc (first_index P xs))"

definition logf :: "LogLevel \<Rightarrow> string \<Rightarrow> string list \<Rightarrow> Scheduler \<Rightarrow> Scheduler" where
  "logf lvl m kv s = s\<lparr>logged := logged s @ [(lvl, m, kv)]\<rparr>"

definition access :: "Access \<Rightarrow> Scheduler \<Rightarrow> Scheduler" where
  "access a s = s\<lparr>jmu_trace := jmu_trace s @ [a]\<rparr>"

definition send_output :: "ChanMsg \<Rightarrow> Scheduler \<Rightarrow> Scheduler" where
  "send_output m s = s\<lparr>OutputCh := OutputCh s @ [m]\<rparr>"

definition running_true :: string where
  \<open>running_true = ''{"running": true}''\<close>

definition running_false :: string where
  \<open>running_false = ''{"running": false}''\<close>

text \<open>
  Modelled from the spec: \<^verbatim>\<open>Settings.SetLastRun\<close> belongs to the settings code, another
  file of the repository. The spec has the hooks record the error text (empty after a
  success) as the job's last-error; the model keeps one text per job id.
\<close>

definition SetLastRun :: "Scheduler \<Rightarrow> string \<Rightarrow> string \<Rightarrow> Scheduler" where
  "SetLastRun s ident txt = s\<lparr>LastRun := (LastRun s)(ident \<mapsto> txt)\<rparr>"

text \<open>
  \<^verbatim>\<open>context.WithCancel(context.Background())\<close> allocates a context that is not
  cancelled; calling the cancel function marks it cancelled.
\<close>

definition WithCancel :: "Scheduler \<Rightarrow> Scheduler \<times> nat" where
  "WithCancel s = (s\<lparr>Ctxs := Ctxs s @ [False]\<rparr>, length (Ctxs s))"

definition call_cancel :: "nat \<Rightarrow> Scheduler \<Rightarrow> Scheduler" where
  "call_cancel a s = s\<lparr>Ctxs := (Ctxs s)[a := True]\<rparr>"

subsection \<open>The registry operations\<close>

text \<open>
  \<^verbatim>\<open>RunNow\<close> belongs to gocron: \<open>runNow\<close> gives the error it returns for a task, if any.
  A request it accepts is queued with the runner.
\<close>

definition RunJobById :: "(nat \<Rightarrow> string option) \<Rightarrow> Scheduler \<Rightarrow> string \<Rightarrow> Scheduler" where
  "RunJobById runNow s ident =
     (case first_index (\<lambda>j. Job_Id j = ident) (Jobs s) of
        None \<Rightarrow> s
      | Some i \<Rightarrow>
          (let j = Jobs s ! i;
               s1 = logf LogInfo ''Running job manually'' [''id'', ident] s;
               s2 = access (WriteForce i) (s1\<lparr>Jobs := (Jobs s1)[i := (Jobs s1 ! i)\<lparr>Force := True\<rparr>]\<rparr>)
           in case runNow (Task_uuid (job j)) of
                Some err \<Rightarrow>
                  logf LogError ''Error running job manually'' [''id'', ident, ''err'', err] s2
              | None \<Rightarrow> s2\<lparr>RunNowRequests := RunNowRequests s2 @ [Task_uuid (job j)]\<rparr>))"

definition StopJobById :: "Scheduler \<Rightarrow> string \<Rightarrow> nat \<Rightarrow> Scheduler" where
  "StopJobById s ident now =
     (case first_index (\<lambda>j. Job_Id j = ident) (Jobs s) of
        None \<Rightarrow> s
      | Some i \<Rightarrow>
          (let j = Jobs s ! i;
               s1 = send_output
                      \<lparr>ChanMsg_Id = Schedule_Id (Job_Schedule j), Msg = running_false, Time = now\<rparr> s
           in call_cancel (Cancel j) s1))"

definition DeleteRunningJob :: "Scheduler \<Rightarrow> string \<Rightarrow> Scheduler" where
  "DeleteRunningJob s ident =
     (let s0 = access MuLock s;
          s3 = (case first_index (\<lambda>j. Job_Id j = ident) (Jobs s0) of
                  None \<Rightarrow> s0
                | Some i \<Rightarrow>
                    (let s1 = logf LogDebug ''Stopping running job'' [''id'', ident] s0;
                         s2 = access (WriteRunning i)
                                (s1\<lparr>Jobs := (Jobs s1)[i := (Jobs s1 ! i)\<lparr>Running := False\<rparr>]\<rparr>)
                     in access (WriteForce i)
                          (s2\<lparr>Jobs := (Jobs s2)[i := (Jobs s2 ! i)\<lparr>Force := False\<rparr>]\<rparr>)))
      in access MuUnlock s3)"

definition FindJobById :: "Scheduler \<Rightarrow> string \<Rightarrow> Scheduler \<times> Job option" where
  "FindJobById s ident =
     (let s0 = access MuLock s
      in (access MuUnlock s0, List.find (\<lambda>j. Job_Id j = ident) (Jobs s0)))"

definition SetRunningJob :: "Scheduler \<Rightarrow> string \<Rightarrow> Scheduler" where
  "SetRunningJob s ident =
     (let s0 = access MuLock s;
          s2 = (case first_index (\<lambda>j. Job_Id j = ident) (Jobs s0) of
                  None \<Rightarrow> s0
                | Some i \<Rightarrow>
                    (let s1 = access (WriteRunning i)
                                (s0\<lparr>Jobs := (Jobs s0)[i := (Jobs s0 ! i)\<lparr>Running := True\<rparr>]\<rparr>)
                     in logf LogDebug ''Setting forced running job'' [''id'', ident] s1))
      in access MuUnlock s2)"

definition RecreateCtx :: "Scheduler \<Rightarrow> string \<Rightarrow> Scheduler" where
  "RecreateCtx s name =
     (case first_index (\<lambda>j. Task_name (job j) = name) (Jobs s) of
        None \<Rightarrow> s
      | Some i \<Rightarrow>
          (let s1 = logf LogDebug ''Recreating context for job'' [''id'', name] s;
               (s2, ctx) = WithCancel s1;
               s3 = access (WriteCtx i) (s2\<lparr>Jobs := (Jobs s2)[i := (Jobs s2 ! i)\<lparr>Ctx := ctx\<rparr>]\<rparr>)
           in access (WriteCancel i)
                (s3\<lparr>Jobs := (Jobs s3)[i := (Jobs s3 ! i)\<lparr>Cancel := ctx\<rparr>]\<rparr>)))"

definition GetRunningJobs :: "Scheduler \<Rightarrow> Scheduler \<times> Job list" where
  "GetRunningJobs s =
     (let s0 = access MuLock s
      in (access MuUnlock s0, filter (\<lambda>j. Running j = True) (Jobs s0)))"

subsection \<open>The lifecycle hooks\<close>


definition AfterJobRuns :: "Scheduler \<Rightarrow> string \<Rightarrow> nat \<Rightarrow> Scheduler" where
  "AfterJobRuns s jobName now =
     (let s1 = send_output \<lparr>ChanMsg_Id = jobName, Msg = running_false, Time = now\<rparr> s;
          s2 = logf LogDebug ''after job run'' [''res'', ''success'', ''id'', jobName] s1;
          s3 = DeleteRunningJob s2 jobName;
          s4 = RecreateCtx s3 jobName
      in SetLastRun s4 jobName [])"

definition AfterJobRunsWithError :: "Scheduler \<Rightarrow> string \<Rightarrow> string \<Rightarrow> nat \<Rightarrow> Scheduler" where
  "AfterJobRunsWithError s jobName err now =
     (let s1 = send_output \<lparr>ChanMsg_Id = jobName, Msg = running_false, Time = now\<rparr> s;
          s2 = logf LogDebug ''after job run'' [''res'', ''error'', ''id'', jobName, ''err'', err] s1;
          s3 = DeleteRunningJob s2 jobName;
          s4 = RecreateCtx s3 jobName
      in SetLastRun s4 jobName err)"

subsection \<open>Rebuilding the schedule\<close>

text \<open>
  \<^verbatim>\<open>NewJob\<close> belongs to gocron: \<open>newJob\<close> gives the error it returns for a definition, a
  name and tags, if any (a cron expression it cannot parse, an empty name). A task it
  accepts is added to the runner. \<open>clock i\<close> is what \<^verbatim>\<open>time.Now()\<close> returns in the
  iteration with index \<open>i\<close>.
\<close>

type_synonym NewJob = "JobDefinition \<Rightarrow> string \<Rightarrow> string list \<Rightarrow> string option"

fun reschedule_range ::
  "NewJob \<Rightarrow> (nat \<Rightarrow> nat) \<Rightarrow> nat \<Rightarrow> Schedule list \<Rightarrow> Scheduler \<Rightarrow> Scheduler" where
  "reschedule_range newJob clock i [] s = s"
| "reschedule_range newJob clock i (schedule # rest) s =
     (let t = AddDate (clock i) 1000 0 0;
          jobDef = (if Cron schedule \<noteq> [] then CronJob (Cron schedule) False else OneTimeJob t);
          name = Schedule_Id schedule;
          tags = [''backup:'' @ BackupId schedule,
                  ''repository:'' @ ToRepositoryId schedule,
                  ''fromrepository:'' @ ToRepositoryId schedule]
      in case newJob jobDef name tags of
           Some err \<Rightarrow>
             reschedule_range newJob clock (Suc i) rest
               (logf LogError ''Error creating Job'' [''err'', err] s)
         | None \<Rightarrow>
             (let j = \<lparr>Task_uuid = length (Gocron s), Task_def = jobDef,
                       Task_name = name, Task_tags = tags\<rparr>;
                  s1 = s\<lparr>Gocron := Gocron s @ [j]\<rparr>;
                  (s2, ctx) = WithCancel s1;
                  s3 = access WriteJobs
                         (s2\<lparr>Jobs := Jobs s2 @
                            [\<lparr>Job_Id = Schedule_Id schedule, job = j, Job_Schedule = schedule,
                              Running = False, Force = False, Ctx = ctx, Cancel = ctx\<rparr>]\<rparr>)
              in reschedule_range newJob clock (Suc i) rest s3))"

definition RescheduleBackups :: "NewJob \<Rightarrow> (nat \<Rightarrow> nat) \<Rightarrow> Scheduler \<Rightarrow> Scheduler" where
  "RescheduleBackups newJob clock s =
     (let s0 = access WriteJobs (s\<lparr>Jobs := []\<rparr>);
          s1 = logf LogInfo ''Rescheduling backups'' [] s0
      in reschedule_range newJob clock 0 (Schedules s1) s1)"

text \<open>
  The lock discipline on a trace of accesses: every write happens between a lock and the
  next unlock. The flag says whether the mutex is held where the trace starts.
\<close>

fun lock_discipline :: "bool \<Rightarrow> Access list \<Rightarrow> bool" where
  "lock_discipline held [] = True"
| "lock_discipline held (MuLock # as) = lock_discipline True as"
| "lock_discipline held (MuUnlock # as) = lock_discipline False as"
| "lock_discipline held (a # as) = (held \<and> lock_discipline held as)"

text \<open>
  The error \<^verbatim>\<open>NewJob\<close> returns for the schedule at index \<open>i\<close> of the list, if any: the
  call the loop makes for it.
\<close>

definition creation_error :: "NewJob \<Rightarrow> (nat \<Rightarrow> nat) \<Rightarrow> nat \<times> Schedule \<Rightarrow> string option" where
  "creation_error newJob clock =
     (\<lambda>(i, schedule).
        newJob (if Cron schedule \<noteq> [] then CronJob (Cron schedule) False
                else OneTimeJob (AddDate (clock i) 1000 0 0))
          (Schedule_Id schedule)
          [''backup:'' @ BackupId schedule,
           ''repository:'' @ ToRepositoryId schedule,
           ''fromrepository:'' @ ToRepositoryId schedule])"

text \<open>What a job appended for the schedule at index \<open>i\<close> looks like.\<close>

definition built_from :: "(nat \<Rightarrow> nat) \<Rightarrow> nat \<Rightarrow> Schedule \<Rightarrow> Job \<Rightarrow> bool" where
  "built_from clock i schedule j =
     (Job_Schedule j = schedule \<and> Job_Id j = Schedule_Id schedule
      \<and> Task_name (job j) = Schedule_Id schedule
      \<and> Task_def (job j) =
          (if Cron schedule \<noteq> [] then CronJob (Cron schedule) False
           else OneTimeJob (AddDate (clock i) 1000 0 0))
      \<and> \<not> Running j \<and> \<not> Force j \<and> Ctx j = Cancel j)"

section \<open>The broadcast hub and the viewer sessions (the server file)\<close>

subsection \<open>The wire payload\<close>

text \<open>
  Modelled from the spec: \<^verbatim>\<open>WsMsg\<close> is declared in another file of the repository; the
  spec's wire format gives its three string fields the JSON names \<^verbatim>\<open>id\<close>, \<^verbatim>\<open>out\<close> and
  \<^verbatim>\<open>err\<close>. \<^verbatim>\<open>json.Marshal\<close> of a slice of such records is an array of objects; the
  payload is held as that JSON value, whose text travels on the \<^verbatim>\<open>broadcast\<close> channel.
\<close>

record WsMsg =
  WsMsg_Id :: string
  Out :: string
  Err :: string

datatype Json =
    JString string
  | JObject "(string \<times> Json) list"
  | JArray "Json list"

definition Marshal :: "WsMsg list \<Rightarrow> string + Json" where
  "Marshal ms =
     Inr (JArray (map (\<lambda>m. JObject [(''id'', JString (WsMsg_Id m)),
                                       (''out'', JString (Out m)),
                                       (''err'', JString (Err m))]) ms))"

subsection \<open>The hub\<close>

text \<open>
  A connection is the address of a \<^verbatim>\<open>websocket.Conn\<close>. The record holds the global map
  \<^verbatim>\<open>clients\<close> (an association list with one entry per key; a range over the map visits
  it in list order, which stands for the unspecified order of Go), the frames the
  connections have accepted, the connections closed, and the log.
\<close>

record client =
  LastSeen :: nat

datatype Frame = TextMessage Json | CloseMessage

record Hub =
  clients :: "(nat \<times> client) list"
  written :: "(nat \<times> Frame) list"
  closed :: "nat list"
  hub_log :: "LogEntry list"

datatype HubMsg = Register nat | Broadcast Json | Unregister nat

text \<open>
  The three channels are unbuffered and \<^verbatim>\<open>runHub\<close> is their only receiver. A send on
  one of them made by \<^verbatim>\<open>runHub\<close> itself, inside a case of its own select, can therefore
  never be received: the loop stays in that statement. \<open>Stuck h c\<close> is the hub stopped
  there, with \<open>c\<close> the connection it was sending.
\<close>

datatype HubStatus = Serving Hub | Stuck Hub nat

fun decimal :: "nat \<Rightarrow> string" where
  "decimal n = (if n < 10 then [char_of (48 + n)]
                else decimal (n div 10) @ [char_of (48 + n mod 10)])"

declare decimal.simps [simp del]

definition hlog :: "LogLevel \<Rightarrow> string \<Rightarrow> string list \<Rightarrow> Hub \<Rightarrow> Hub" where
  "hlog lvl m kv h = h\<lparr>hub_log := hub_log h @ [(lvl, m, kv)]\<rparr>"

definition hub_register :: "(nat \<Rightarrow> string) \<Rightarrow> Hub \<Rightarrow> nat \<Rightarrow> nat \<Rightarrow> Hub" where
  "hub_register addr h connection now =
     (let h1 = h\<lparr>clients := AList.update connection \<lparr>LastSeen = now\<rparr> (clients h)\<rparr>
      in hlog LogDebug ''connection registered''
           [''addr'', addr connection, ''clients'', decimal (length (clients h1))] h1)"

text \<open>
  \<open>werr\<close> gives the error \<^verbatim>\<open>WriteMessage\<close> returns on a connection for a payload, if
  any. After a failed write the loop logs and sends the connection on \<^verbatim>\<open>unregister\<close>;
  the close frame, \<^verbatim>\<open>Close\<close> and the rest of the range come after that send. The log
  line of a delivery names the peer; the payload is not repeated in it.
\<close>

fun broadcast_range ::
  "(nat \<Rightarrow> Json \<Rightarrow> string option) \<Rightarrow> (nat \<Rightarrow> string) \<Rightarrow> Json \<Rightarrow> nat list \<Rightarrow> Hub \<Rightarrow> HubStatus" where
  "broadcast_range werr addr message [] h = Serving h"
| "broadcast_range werr addr message (connection # rest) h =
     (case werr connection message of
        Some err \<Rightarrow> Stuck (hlog LogError ''write error:'' [err] h) connection
      | None \<Rightarrow>
          broadcast_range werr addr message rest
            (hlog LogDebug ''message sent'' [''addr'', addr connection]
               (h\<lparr>written := written h @ [(connection, TextMessage message)]\<rparr>)))"

definition hub_broadcast ::
  "(nat \<Rightarrow> Json \<Rightarrow> string option) \<Rightarrow> (nat \<Rightarrow> string) \<Rightarrow> Hub \<Rightarrow> Json \<Rightarrow> HubStatus" where
  "hub_broadcast werr addr h message =
     broadcast_range werr addr message (map fst (clients h)) h"

definition hub_unregister :: "(nat \<Rightarrow> string) \<Rightarrow> Hub \<Rightarrow> nat \<Rightarrow> Hub" where
  "hub_unregister addr h connection =
     (let h1 = h\<lparr>clients := AList.delete connection (clients h)\<rparr>
      in hlog LogDebug ''connection unregistered''
           [''addr'', addr connection, ''clients'', decimal (length (clients h1))] h1)"

text \<open>
  \<^verbatim>\<open>runHub\<close>: one turn of the select for each message received, paired with the instant
  at which it is received, until the input ends or the loop is stuck.
\<close>

fun runHub ::
  "(nat \<Rightarrow> Json \<Rightarrow> string option) \<Rightarrow> (nat \<Rightarrow> string) \<Rightarrow> Hub \<Rightarrow> (nat \<times> HubMsg) list \<Rightarrow> HubStatus" where
  "runHub werr addr h [] = Serving h"
| "runHub werr addr h ((now, Register connection) # ms) =
     runHub werr addr (hub_register addr h connection now) ms"
| "runHub werr addr h ((now, Broadcast message) # ms) =
     (case hub_broadcast werr addr h message of
        Serving h' \<Rightarrow> runHub werr addr h' ms
      | Stuck h' c \<Rightarrow> Stuck h' c)"
| "runHub werr addr h ((now, Unregister connection) # ms) =
     runHub werr addr (hub_unregister addr h connection) ms"

subsection \<open>The liveness sweep and the ping handler\<close>

text \<open>
  The components outside the hub return the shared state as they leave it and the
  messages they send on the hub's channels. One pass of the sweep sends every client
  not seen for more than two seconds on \<^verbatim>\<open>unregister\<close>.
\<close>

definition cleanClients_pass :: "nat \<Rightarrow> Hub \<Rightarrow> Hub \<times> HubMsg list" where
  "cleanClients_pass now h =
     (h, map (\<lambda>(connection, client). Unregister connection)
           (filter (\<lambda>(connection, client). now - LastSeen client > 2 * 1000000000) (clients h)))"

text \<open>
  One turn of \<^verbatim>\<open>handlePing\<close> for the connection \<open>c\<close>: \<open>rerr\<close> is the error of
  \<^verbatim>\<open>ReadMessage\<close>, if any. After a successful read the spawned function walks the map
  and stores the refreshed record at the first connection with the remote address of \<open>c\<close>.
\<close>

definition handlePing_turn ::
  "(nat \<Rightarrow> string) \<Rightarrow> nat \<Rightarrow> string option \<Rightarrow> nat \<Rightarrow> Hub \<Rightarrow> Hub \<times> HubMsg list" where
  "handlePing_turn addr c rerr now h =
     (case rerr of
        Some err \<Rightarrow> (h, [])
      | None \<Rightarrow>
          (case first_index (\<lambda>(connection, client). addr connection = addr c) (clients h) of
             None \<Rightarrow> (h, [])
           | Some i \<Rightarrow>
               (let (connection, client) = clients h ! i;
                    c' = client\<lparr>LastSeen := now\<rparr>
                in (h\<lparr>clients := AList.update connection c' (clients h)\<rparr>, []))))"

subsection \<open>The viewer session\<close>

text \<open>
  The websocket handler keeps two slices, \<^verbatim>\<open>outs\<close> and \<^verbatim>\<open>errs\<close>. Both cases of its
  select store the incoming record the same way: appended when \<^verbatim>\<open>funk.Find\<close> finds no
  element with its id, written over the first element with that id otherwise.
\<close>

record Session =
  outs :: "WsMsg list"
  errs :: "WsMsg list"
  session_log :: "LogEntry list"

definition store :: "WsMsg \<Rightarrow> WsMsg list \<Rightarrow> WsMsg list" where
  "store m arr =
     (case List.find (\<lambda>arrm. WsMsg_Id arrm = WsMsg_Id m) arr of
        None \<Rightarrow> arr @ [m]
      | Some found \<Rightarrow>
          (case first_index (\<lambda>arrm. WsMsg_Id arrm = WsMsg_Id m) arr of
             None \<Rightarrow> arr
           | Some i \<Rightarrow> arr[i := m]))"

definition slog :: "LogLevel \<Rightarrow> string \<Rightarrow> string list \<Rightarrow> Session \<Rightarrow> Session" where
  "slog lvl m kv v = v\<lparr>session_log := session_log v @ [(lvl, m, kv)]\<rparr>"

definition output_case :: "Session \<Rightarrow> ChanMsg \<Rightarrow> Session \<times> HubMsg list" where
  "output_case v o' =
     (let m = \<lparr>WsMsg_Id = ChanMsg_Id o', Out = Msg o', Err = []\<rparr>;
          v1 = slog LogDebug [] [WsMsg_Id m, Out m, Err m] v;
          v2 = (if WsMsg_Id m \<noteq> [] then v1\<lparr>outs := store m (outs v1)\<rparr> else v1)
      in case Marshal (filter (\<lambda>w. Out w \<noteq> [] \<and> Out w \<noteq> ''{}'') (outs v2)) of
           Inr j \<Rightarrow> (v2, [Broadcast j])
         | Inl err \<Rightarrow> (slog LogError ''socket: marshal'' [''err'', err] v2, []))"

definition error_case :: "Session \<Rightarrow> ChanMsg \<Rightarrow> Session \<times> HubMsg list" where
  "error_case v e =
     (let m = \<lparr>WsMsg_Id = ChanMsg_Id e, Out = [], Err = Msg e\<rparr>;
          v1 = slog LogDebug [] [WsMsg_Id m, Out m, Err m] v;
          v2 = (if WsMsg_Id m \<noteq> [] then v1\<lparr>errs := store m (errs v1)\<rparr> else v1)
      in case Marshal (filter (\<lambda>w. Err w \<noteq> [] \<and> Err w \<noteq> ''{}'') (errs v2)) of
           Inr j \<Rightarrow> (v2, [Broadcast j])
         | Inl err \<Rightarrow> (slog LogError ''socket: marshal'' [''err'', err] v2, []))"

datatype Event = OnOutputChan ChanMsg | OnErrorChan ChanMsg

text \<open>
  The handler's loop over the events it receives, from the two empty slices it starts
  with: the session as it ends and the messages sent on the hub's channels, in order.
\<close>

fun event_loop :: "Session \<Rightarrow> Event list \<Rightarrow> Session \<times> HubMsg list" where
  "event_loop v [] = (v, [])"
| "event_loop v (OnOutputChan o' # es) =
     (case output_case v o' of (v', sent) \<Rightarrow>
        (case event_loop v' es of (v'', sent') \<Rightarrow> (v'', sent @ sent')))"
| "event_loop v (OnErrorChan e # es) =
     (case error_case v e of (v', sent) \<Rightarrow>
        (case event_loop v' es of (v'', sent') \<Rightarrow> (v'', sent @ sent')))"

definition new_session :: Session where
  "new_session = \<lparr>outs = [], errs = [], session_log = []\<rparr>"

definition handler_accept :: "nat \<Rightarrow> Hub \<Rightarrow> Hub \<times> HubMsg list" where
  "handler_accept c h = (h, [Register c])"

definition handler_exit :: "nat \<Rightarrow> Hub \<Rightarrow> Hub \<times> HubMsg list" where
  "handler_exit c h = (h\<lparr>closed := closed h @ [c]\<rparr>, [Unregister c])"

text \<open>The objects of a payload, and the string an object holds under a name.\<close>

fun elements :: "Json \<Rightarrow> Json list" where
  "elements (JArray js) = js"
| "elements j = []"

fun member_string :: "string \<Rightarrow> Json \<Rightarrow> string option" where
  "member_string k (JObject kvs) =
     (case map_of kvs k of Some (JString s) \<Rightarrow> Some s | _ \<Rightarrow> None)"
| "member_string k j = None"

section \<open>Example states\<close>

text \<open>
  A registry with two jobs: \<open>s1\<close>, cron-driven and idle, and \<open>s2\<close>, a one-shot that is
  running after a manual trigger. The configuration lists their schedules and a third
  one, \<open>s3\<close>, whose cron expression the runner \<open>strict_runner\<close> rejects.
\<close>

definition sched_s1 :: Schedule where
  "sched_s1 = \<lparr>Schedule_Id = ''s1'', Cron = ''*/5 * * * *'', BackupId = ''b1'',
               ToRepositoryId = ''r1'', FromRepositoryId = []\<rparr>"

definition sched_s2 :: Schedule where
  "sched_s2 = \<lparr>Schedule_Id = ''s2'', Cron = [], BackupId = ''b2'',
               ToRepositoryId = ''r1'', FromRepositoryId = []\<rparr>"

definition sched_s3 :: Schedule where
  "sched_s3 = \<lparr>Schedule_Id = ''s3'', Cron = ''bogus'', BackupId = ''b3'',
               ToRepositoryId = ''r1'', FromRepositoryId = []\<rparr>"

definition task_s1 :: Task where
  "task_s1 = \<lparr>Task_uuid = 0, Task_def = CronJob ''*/5 * * * *'' False, Task_name = ''s1'',
              Task_tags = [''backup:b1'', ''repository:r1'', ''fromrepository:r1'']\<rparr>"

definition task_s2 :: Task where
  "task_s2 = \<lparr>Task_uuid = 1, Task_def = OneTimeJob (AddDate 5 1000 0 0), Task_name = ''s2'',
              Task_tags = [''backup:b2'', ''repository:r1'', ''fromrepository:r1'']\<rparr>"

definition job_s1 :: Job where
  "job_s1 = \<lparr>Job_Id = ''s1'', job = task_s1, Job_Schedule = sched_s1,
             Running = False, Force = False, Ctx = 0, Cancel = 0\<rparr>"

definition job_s2 :: Job where
  "job_s2 = \<lparr>Job_Id = ''s2'', job = task_s2, Job_Schedule = sched_s2,
             Running = True, Force = True, Ctx = 1, Cancel = 1\<rparr>"

definition registry :: Scheduler where
  "registry = \<lparr>Gocron = [task_s1, task_s2], RunNowRequests = [1], Jobs = [job_s1, job_s2],
               Schedules = [sched_s1, sched_s2, sched_s3], LastRun = Map.empty,
               OutputCh = [], ErrorCh = [], Ctxs = [False, False], logged = [],
               jmu_trace = []\<rparr>"

definition strict_runner :: NewJob where
  "strict_runner d name tags =
     (if d = CronJob ''bogus'' False then Some ''gocron: crontab parse failure'' else None)"

text \<open>
  A hub with three viewers, last seen at instant 10, and a transport on which every write
  to the second viewer fails.
\<close>

definition hub3 :: Hub where
  "hub3 = \<lparr>clients = [(1, \<lparr>LastSeen = 10\<rparr>), (2, \<lparr>LastSeen = 10\<rparr>), (3, \<lparr>LastSeen = 10\<rparr>)],
           written = [], closed = [], hub_log = []\<rparr>"

definition peer :: "nat \<Rightarrow> string" where
  "peer c = (if c = 1 then ''10.0.0.1:40001'' else if c = 2 then ''10.0.0.2:40002''
             else ''10.0.0.3:40003'')"

definition broken2 :: "nat \<Rightarrow> Json \<Rightarrow> string option" where
  "broken2 c m = (if c = 2 then Some ''broken pipe'' else None)"

definition payload1 :: Json where
  "payload1 = JArray [JObject [(''id'', JString ''s1''), (''out'', JString running_true),
                               (''err'', JString [])]]"

text \<open>
  Success events: two for the job \<open>a\<close> with one for \<open>b\<close> between them, whose payload is
  the empty object; and two events that carry no id.
\<close>

definition events_aba :: "ChanMsg list" where
  "events_aba = [\<lparr>ChanMsg_Id = ''a'', Msg = ''X'', Time = 1\<rparr>,
                 \<lparr>ChanMsg_Id = ''b'', Msg = ''{}'', Time = 2\<rparr>,
                 \<lparr>ChanMsg_Id = ''a'', Msg = ''Y'', Time = 3\<rparr>]"

definition events_noid :: "ChanMsg list" where
  "events_noid = [\<lparr>ChanMsg_Id = [], Msg = ''X'', Time = 1\<rparr>,
                  \<lparr>ChanMsg_Id = [], Msg = ''Y'', Time = 2\<rparr>]"

section \<open>Shared facts\<close>

lemmas step_defs = logf_def access_def send_output_def call_cancel_def WithCancel_def
  SetLastRun_def

lemmas example_defs = registry_def job_s1_def job_s2_def task_s1_def task_s2_def
  sched_s1_def sched_s2_def sched_s3_def

lemma first_index_None: "(first_index P xs = None) = (\<forall>x\<in>set xs. \<not> P x)"
  by (induction xs) auto

lemma first_index_Some:
  "first_index P xs = Some i \<Longrightarrow> i < length xs \<and> P (xs ! i) \<and> (\<forall>k<i. \<not> P (xs ! k))"
proof (induction xs arbitrary: i)
  case Nil
  then show ?case by simp
next
  case (Cons x xs)
  show ?case
  proof (cases "P x")
    case True
    with Cons.prems show ?thesis by simp
  next
    case False
    with Cons.prems obtain k where k: "first_index P xs = Some k" "i = Suc k"
      by auto
    from Cons.IH [OF k(1)] False k(2) show ?thesis
      by (auto simp: less_Suc_eq_0_disj)
  qed
qed

lemma filter_key_singleton:
  "distinct (map f xs) \<Longrightarrow> x \<in> set xs \<Longrightarrow> filter (\<lambda>y. f y = f x) xs = [x]"
proof (induction xs)
  case Nil
  then show ?case by simp
next
  case (Cons a xs)
  show ?case
  proof (cases "a = x")
    case True
    with Cons.prems have "f x \<notin> f ` set xs" by simp
    then have "\<forall>y\<in>set xs. f y \<noteq> f x" by (metis imageI)
    then have "filter (\<lambda>y. f y = f x) xs = []" by (simp add: filter_empty_conv)
    with True show ?thesis by simp
  next
    case False
    with Cons.prems have "x \<in> set xs" "f a \<noteq> f x" by auto
    with Cons show ?thesis by simp
  qed
qed

section \<open>The external-process wrapper\<close>

lemma core_error_nil: "snd (snd (core run environ r repository cmd envs)) = None"
  by (simp add: core_def Let_def split: ProcOutcome.split)

text \<open>
  C10: \<^verbatim>\<open>core\<close> returns a nil error whatever the external command does: when it fails
  to start, when waiting on it fails, and when it exits cleanly. So \<^verbatim>\<open>Check\<close> and
  \<^verbatim>\<open>Initialize\<close> return nil on every input, and no caller sees an execution failure in
  the error result.
\<close>

theorem core_never_reports_failure:
  "snd (snd (core run environ r repository cmd envs)) = None
   \<and> snd (snd (core (\<lambda>p a e. StartFailed msg) environ r repository cmd envs)) = None
   \<and> snd (snd (core (\<lambda>p a e. Exited (Some msg) sout serr) environ r repository cmd envs)) = None
   \<and> snd (Check run environ r repository) = None
   \<and> snd (Initialize run environ r repository) = None"
proof -
  have c: "\<And>f c. snd (snd (core f environ r repository c [])) = None"
    by (rule core_error_nil)
  have "snd (Check run environ r repository) = None"
    using c [of run "[''check'']"]
    by (cases "core run environ r repository [''check''] []") (simp add: Check_def)
  moreover have "snd (Initialize run environ r repository) = None"
    using c [of run "[''init'']"]
    by (cases "core run environ r repository [''init''] []") (simp add: Initialize_def)
  ultimately show ?thesis
    by (simp add: core_error_nil)
qed

section \<open>Triggering and stopping by id\<close>

text \<open>
  C9: for an id that no job of the registry carries, \<^verbatim>\<open>RunJobById\<close> and
  \<^verbatim>\<open>StopJobById\<close> leave the whole state as it is: no field of a job changes, nothing
  is sent on a channel, nothing is asked of the runner, no context is cancelled, and
  nothing is logged. Neither function has an error result.
\<close>

theorem unknown_id_is_noop:
  "ident \<notin> Job_Id ` set (Jobs s) \<Longrightarrow>
     RunJobById runNow s ident = s \<and> StopJobById s ident now = s"
proof -
  assume "ident \<notin> Job_Id ` set (Jobs s)"
  then have "first_index (\<lambda>j. Job_Id j = ident) (Jobs s) = None"
    by (auto simp: first_index_None)
  then show ?thesis
    by (simp add: RunJobById_def StopJobById_def)
qed

theorem unknown_id_is_noop_witness:
  "''s9'' \<notin> Job_Id ` set (Jobs registry)
   \<and> RunJobById (\<lambda>u. None) registry ''s9'' = registry
   \<and> StopJobById registry ''s9'' 7 = registry"
proof -
  have h: "''s9'' \<notin> Job_Id ` set (Jobs registry)"
    by (simp add: example_defs)
  from unknown_id_is_noop [OF h] h show ?thesis by simp
qed

section \<open>The after-run-error hook\<close>

lemma DeleteRunningJob_frame:
  "OutputCh (DeleteRunningJob s ident) = OutputCh s"
  "ErrorCh (DeleteRunningJob s ident) = ErrorCh s"
  "LastRun (DeleteRunningJob s ident) = LastRun s"
  by (simp_all add: DeleteRunningJob_def step_defs Let_def split: option.split)

lemma RecreateCtx_frame:
  "OutputCh (RecreateCtx s name) = OutputCh s"
  "ErrorCh (RecreateCtx s name) = ErrorCh s"
  "LastRun (RecreateCtx s name) = LastRun s"
  by (simp_all add: RecreateCtx_def step_defs Let_def split: option.split)

text \<open>
  C1, as the code has it: the after-run-error hook sends exactly one message, the
  \<^verbatim>\<open>{"running": false}\<close> payload under the job's name, on the success channel, and
  records the error text as the job's last-error. It sends nothing on the error channel:
  no statement of the scheduler does.
\<close>

theorem after_run_error_effects:
  "OutputCh (AfterJobRunsWithError s jobName err now) =
     OutputCh s @ [\<lparr>ChanMsg_Id = jobName, Msg = running_false, Time = now\<rparr>]
   \<and> ErrorCh (AfterJobRunsWithError s jobName err now) = ErrorCh s
   \<and> LastRun (AfterJobRunsWithError s jobName err now) jobName = Some err"
  by (simp add: AfterJobRunsWithError_def Let_def SetLastRun_def DeleteRunningJob_frame
      RecreateCtx_frame logf_def send_output_def)

text \<open>
  The run of \<open>s2\<close> ends with the error \<^verbatim>\<open>disk full\<close>: the error channel, empty before the
  hook, is empty after it.
\<close>

theorem after_run_error_sends_no_error_event:
  "ErrorCh registry = []
   \<and> ErrorCh (AfterJobRunsWithError registry ''s2'' ''disk full'' 7) = []
   \<and> OutputCh (AfterJobRunsWithError registry ''s2'' ''disk full'' 7) =
       [\<lparr>ChanMsg_Id = ''s2'', Msg = running_false, Time = 7\<rparr>]"
  by (simp add: AfterJobRunsWithError_def Let_def SetLastRun_def DeleteRunningJob_frame
      RecreateCtx_frame logf_def send_output_def registry_def)

section \<open>Rebuilding the schedule\<close>

text \<open>One turn of the loop, for a schedule the runner refuses and for one it accepts.\<close>

lemma reschedule_range_reject:
  "creation_error newJob clock (i, schedule) = Some err \<Longrightarrow>
     reschedule_range newJob clock i (schedule # rest) s =
       reschedule_range newJob clock (Suc i) rest
         (s\<lparr>logged := logged s @ [(LogError, ''Error creating Job'', [''err'', err])]\<rparr>)"
  by (simp add: creation_error_def Let_def logf_def)

lemma reschedule_range_accept:
  assumes "creation_error newJob clock (i, schedule) = None"
  shows "\<exists>tk j0. built_from clock i schedule j0 \<and>
     reschedule_range newJob clock i (schedule # rest) s =
       reschedule_range newJob clock (Suc i) rest
         (s\<lparr>Gocron := Gocron s @ [tk], Ctxs := Ctxs s @ [False], Jobs := Jobs s @ [j0],
            jmu_trace := jmu_trace s @ [WriteJobs]\<rparr>)"
proof -
  define d where "d = (if Cron schedule \<noteq> [] then CronJob (Cron schedule) False
                       else OneTimeJob (AddDate (clock i) 1000 0 0))"
  define tk where "tk = \<lparr>Task_uuid = length (Gocron s), Task_def = d,
      Task_name = Schedule_Id schedule,
      Task_tags = [''backup:'' @ BackupId schedule, ''repository:'' @ ToRepositoryId schedule,
                   ''fromrepository:'' @ ToRepositoryId schedule]\<rparr>"
  define j0 where "j0 = \<lparr>Job_Id = Schedule_Id schedule, job = tk, Job_Schedule = schedule,
      Running = False, Force = False, Ctx = length (Ctxs s), Cancel = length (Ctxs s)\<rparr>"
  have "built_from clock i schedule j0"
    by (simp add: built_from_def j0_def tk_def d_def)
  moreover from assms have "reschedule_range newJob clock i (schedule # rest) s =
      reschedule_range newJob clock (Suc i) rest
        (s\<lparr>Gocron := Gocron s @ [tk], Ctxs := Ctxs s @ [False], Jobs := Jobs s @ [j0],
           jmu_trace := jmu_trace s @ [WriteJobs]\<rparr>)"
    by (simp add: creation_error_def Let_def step_defs j0_def tk_def d_def)
  ultimately show ?thesis by blast
qed

lemma reschedule_range_schedules:
  "map Job_Schedule (Jobs (reschedule_range newJob clock i scheds s)) =
     map Job_Schedule (Jobs s) @
     map snd (filter (\<lambda>p. creation_error newJob clock p = None) (enumerate i scheds))"
proof (induction scheds arbitrary: i s)
  case Nil
  then show ?case by simp
next
  case (Cons schedule rest)
  show ?case
    by (simp add: Cons.IH creation_error_def step_defs Let_def split: option.split)
qed

lemma reschedule_range_logged:
  "logged (reschedule_range newJob clock i scheds s) =
     logged s @
     map (\<lambda>e. (LogError, ''Error creating Job'', [''err'', e]))
       (List.map_filter (creation_error newJob clock) (enumerate i scheds))"
proof (induction scheds arbitrary: i s)
  case Nil
  then show ?case by (simp add: map_filter_simps)
next
  case (Cons schedule rest)
  show ?case
    by (simp add: Cons.IH creation_error_def step_defs Let_def map_filter_simps split: option.split)
qed

lemma reschedule_range_jobs:
  "\<exists>js. Jobs (reschedule_range newJob clock i scheds s) = Jobs s @ js
     \<and> list_all2 (\<lambda>j p. built_from clock (fst p) (snd p) j) js
          (filter (\<lambda>p. creation_error newJob clock p = None) (enumerate i scheds))"
proof (induction scheds arbitrary: i s)
  case Nil
  then show ?case by simp
next
  case (Cons schedule rest)
  show ?case
  proof (cases "creation_error newJob clock (i, schedule)")
    case (Some err)
    from Cons.IH [of "Suc i"
        "s\<lparr>logged := logged s @ [(LogError, ''Error creating Job'', [''err'', err])]\<rparr>"] Some
    show ?thesis
      unfolding reschedule_range_reject [OF Some] by simp
  next
    case None
    from reschedule_range_accept [OF None, of rest s] obtain tk j0 where
      b: "built_from clock i schedule j0" and
      step: "reschedule_range newJob clock i (schedule # rest) s =
        reschedule_range newJob clock (Suc i) rest
          (s\<lparr>Gocron := Gocron s @ [tk], Ctxs := Ctxs s @ [False], Jobs := Jobs s @ [j0],
             jmu_trace := jmu_trace s @ [WriteJobs]\<rparr>)"
      by blast
    from Cons.IH [of "Suc i" "s\<lparr>Gocron := Gocron s @ [tk], Ctxs := Ctxs s @ [False],
        Jobs := Jobs s @ [j0], jmu_trace := jmu_trace s @ [WriteJobs]\<rparr>"]
    obtain js where
      js: "Jobs (reschedule_range newJob clock i (schedule # rest) s) = (Jobs s @ [j0]) @ js"
          "list_all2 (\<lambda>j p. built_from clock (fst p) (snd p) j) js
             (filter (\<lambda>p. creation_error newJob clock p = None) (enumerate (Suc i) rest))"
      unfolding step by auto
    have "Jobs (reschedule_range newJob clock i (schedule # rest) s) = Jobs s @ (j0 # js)"
      using js(1) by simp
    moreover have "list_all2 (\<lambda>j p. built_from clock (fst p) (snd p) j) (j0 # js)
        (filter (\<lambda>p. creation_error newJob clock p = None) (enumerate i (schedule # rest)))"
      using None b js(2) by simp
    ultimately show ?thesis by blast
  qed
qed

lemma RescheduleBackups_jobs:
  "\<exists>js. Jobs (RescheduleBackups newJob clock s) = js
     \<and> list_all2 (\<lambda>j p. built_from clock (fst p) (snd p) j) js
          (filter (\<lambda>p. creation_error newJob clock p = None) (enumerate 0 (Schedules s)))"
  using reschedule_range_jobs [of newJob clock 0 "Schedules s"
      "logf LogInfo ''Rescheduling backups'' [] (access WriteJobs (s\<lparr>Jobs := []\<rparr>))"]
  by (simp add: RescheduleBackups_def Let_def step_defs)

text \<open>
  The rebuild removes no task from the runner: those registered before it are still
  registered after it.
\<close>

lemma reschedule_range_Gocron:
  "\<exists>ts. Gocron (reschedule_range newJob clock i scheds s) = Gocron s @ ts"
proof (induction scheds arbitrary: i s)
  case Nil
  then show ?case by simp
next
  case (Cons schedule rest)
  show ?case
  proof (cases "creation_error newJob clock (i, schedule)")
    case (Some err)
    from Cons.IH [of "Suc i"
        "s\<lparr>logged := logged s @ [(LogError, ''Error creating Job'', [''err'', err])]\<rparr>"]
    show ?thesis
      unfolding reschedule_range_reject [OF Some] by simp
  next
    case None
    from reschedule_range_accept [OF None, of rest s] obtain tk j0 where
      step: "reschedule_range newJob clock i (schedule # rest) s =
        reschedule_range newJob clock (Suc i) rest
          (s\<lparr>Gocron := Gocron s @ [tk], Ctxs := Ctxs s @ [False], Jobs := Jobs s @ [j0],
             jmu_trace := jmu_trace s @ [WriteJobs]\<rparr>)"
      by blast
    from Cons.IH [of "Suc i" "s\<lparr>Gocron := Gocron s @ [tk], Ctxs := Ctxs s @ [False],
        Jobs := Jobs s @ [j0], jmu_trace := jmu_trace s @ [WriteJobs]\<rparr>"]
    obtain ts where "Gocron (reschedule_range newJob clock i (schedule # rest) s) =
        (Gocron s @ [tk]) @ ts"
      unfolding step by auto
    then have "Gocron (reschedule_range newJob clock i (schedule # rest) s) = Gocron s @ (tk # ts)"
      by simp
    then show ?thesis by blast
  qed
qed

lemma RescheduleBackups_Gocron:
  "\<exists>ts. Gocron (RescheduleBackups newJob clock s) = Gocron s @ ts"
  using reschedule_range_Gocron [of newJob clock 0 "Schedules s"
      "logf LogInfo ''Rescheduling backups'' [] (access WriteJobs (s\<lparr>Jobs := []\<rparr>))"]
  by (simp add: RescheduleBackups_def Let_def step_defs)

text \<open>
  C4, as the code has it: a rebuild drops the jobs of the registry, whatever they are, and
  builds the list anew from the configured schedules. With unique schedule ids, a
  schedule whose task the runner accepts gets exactly one job with its id: idle, its task
  named after it, driven by the cron expression when there is one and by a one-shot set
  1000 years after the instant of its creation when there is none. A schedule whose task
  the runner refuses gets no job.
\<close>

theorem rebuild_builds_jobs:
  assumes "distinct (map Schedule_Id (Schedules s))" and "i < length (Schedules s)"
  shows "(creation_error newJob clock (i, Schedules s ! i) = None \<longrightarrow>
           (\<exists>j. filter (\<lambda>j. Job_Id j = Schedule_Id (Schedules s ! i))
                   (Jobs (RescheduleBackups newJob clock s)) = [j]
              \<and> Job_Schedule j = Schedules s ! i \<and> \<not> Running j \<and> \<not> Force j
              \<and> Task_name (job j) = Schedule_Id (Schedules s ! i)
              \<and> (Cron (Schedules s ! i) \<noteq> [] \<longrightarrow>
                   Task_def (job j) = CronJob (Cron (Schedules s ! i)) False)
              \<and> (Cron (Schedules s ! i) = [] \<longrightarrow>
                   Task_def (job j) = OneTimeJob (AddDate (clock i) 1000 0 0))))
       \<and> (creation_error newJob clock (i, Schedules s ! i) \<noteq> None \<longrightarrow>
            filter (\<lambda>j. Job_Id j = Schedule_Id (Schedules s ! i))
              (Jobs (RescheduleBackups newJob clock s)) = [])
       \<and> Jobs (RescheduleBackups newJob clock (s\<lparr>Jobs := js0\<rparr>)) =
           Jobs (RescheduleBackups newJob clock s)"
proof -
  have discard: "Jobs (RescheduleBackups newJob clock (s\<lparr>Jobs := js0\<rparr>)) =
      Jobs (RescheduleBackups newJob clock s)"
    by (simp add: RescheduleBackups_def Let_def step_defs)
  define scheds where "scheds = Schedules s"
  define ps where "ps = filter (\<lambda>p. creation_error newJob clock p = None) (enumerate 0 scheds)"
  define js where "js = Jobs (RescheduleBackups newJob clock s)"
  define sch where "sch = scheds ! i"
  have rel: "list_all2 (\<lambda>j p. built_from clock (fst p) (snd p) j) js ps"
    using RescheduleBackups_jobs [of newJob clock s] by (simp add: js_def ps_def scheds_def)
  have len: "length js = length ps"
    using rel by (rule list_all2_lengthD)
  have nth: "\<And>n. n < length js \<Longrightarrow> built_from clock (fst (ps ! n)) (snd (ps ! n)) (js ! n)"
    using rel by (simp add: list_all2_conv_all_nth)
  have ids: "map Job_Id js = map (Schedule_Id \<circ> snd) ps"
  proof (rule nth_equalityI)
    show "length (map Job_Id js) = length (map (Schedule_Id \<circ> snd) ps)"
      using len by simp
  next
    fix n assume "n < length (map Job_Id js)"
    then have n: "n < length js" by simp
    from nth [OF n] n len show "map Job_Id js ! n = map (Schedule_Id \<circ> snd) ps ! n"
      by (simp add: built_from_def)
  qed
  have "map (Schedule_Id \<circ> snd) (enumerate 0 scheds) = map Schedule_Id scheds"
    by (simp flip: map_map)
  with assms(1) have "distinct (map (Schedule_Id \<circ> snd) (enumerate 0 scheds))"
    by (simp add: scheds_def)
  then have dps: "distinct (map (Schedule_Id \<circ> snd) ps)"
    unfolding ps_def by (rule distinct_map_filter)
  with ids have dj: "distinct (map Job_Id js)" by simp
  have iin: "(i, sch) \<in> set (enumerate 0 scheds)"
    using assms(2) by (auto simp: in_set_enumerate_eq sch_def scheds_def)
  have uniq: "\<And>p. p \<in> set (enumerate 0 scheds) \<Longrightarrow> Schedule_Id (snd p) = Schedule_Id sch \<Longrightarrow> p = (i, sch)"
  proof -
    fix p assume p: "p \<in> set (enumerate 0 scheds)" "Schedule_Id (snd p) = Schedule_Id sch"
    then have "fst p < length scheds" "snd p = scheds ! fst p"
      by (auto simp: in_set_enumerate_eq)
    with p(2) assms have "fst p = i"
      by (metis distinct_conv_nth length_map nth_map sch_def scheds_def)
    with \<open>snd p = scheds ! fst p\<close> show "p = (i, sch)"
      by (simp add: sch_def prod_eq_iff)
  qed
  have accepted: ?thesis if acc: "creation_error newJob clock (i, sch) = None"
  proof -
    from acc iin have "(i, sch) \<in> set ps" by (simp add: ps_def)
    then obtain n where n: "n < length ps" "ps ! n = (i, sch)"
      by (auto simp: in_set_conv_nth)
    with len nth [of n] have b: "built_from clock i sch (js ! n)" by simp
    from n len have "js ! n \<in> set js" by simp
    with dj have "filter (\<lambda>y. Job_Id y = Job_Id (js ! n)) js = [js ! n]"
      by (rule filter_key_singleton)
    with b have "filter (\<lambda>y. Job_Id y = Schedule_Id sch) js = [js ! n]"
      by (simp add: built_from_def)
    with b acc discard show ?thesis
      unfolding js_def sch_def scheds_def built_from_def by auto
  qed
  have rejected: ?thesis if rej: "creation_error newJob clock (i, sch) \<noteq> None"
  proof -
    have "\<forall>j\<in>set js. Job_Id j \<noteq> Schedule_Id sch"
    proof
      fix j assume "j \<in> set js"
      then obtain n where n: "n < length js" "js ! n = j" by (auto simp: in_set_conv_nth)
      with nth [of n] have b: "Job_Id j = Schedule_Id (snd (ps ! n))" by (simp add: built_from_def)
      from n len have pin: "ps ! n \<in> set ps" by simp
      then have "ps ! n \<in> set (enumerate 0 scheds)" "creation_error newJob clock (ps ! n) = None"
        by (simp_all add: ps_def)
      with uniq [of "ps ! n"] rej have "Schedule_Id (snd (ps ! n)) \<noteq> Schedule_Id sch" by auto
      with b show "Job_Id j \<noteq> Schedule_Id sch" by simp
    qed
    then have "filter (\<lambda>j. Job_Id j = Schedule_Id sch) js = []"
      by (simp add: filter_empty_conv)
    with rej discard show ?thesis
      unfolding js_def sch_def scheds_def by simp
  qed
  from accepted rejected show ?thesis
    unfolding sch_def scheds_def by blast
qed

theorem rebuild_builds_jobs_witness:
  "distinct (map Schedule_Id (Schedules registry)) \<and> 2 < length (Schedules registry)
   \<and> creation_error strict_runner (\<lambda>i. 9) (0, Schedules registry ! 0) = None
   \<and> creation_error strict_runner (\<lambda>i. 9) (1, Schedules registry ! 1) = None
   \<and> creation_error strict_runner (\<lambda>i. 9) (2, Schedules registry ! 2) \<noteq> None
   \<and> Cron (Schedules registry ! 0) \<noteq> [] \<and> Cron (Schedules registry ! 1) = []
   \<and> (\<exists>j. filter (\<lambda>j. Job_Id j = ''s1'')
             (Jobs (RescheduleBackups strict_runner (\<lambda>i. 9) registry)) = [j]
          \<and> \<not> Running j \<and> Task_def (job j) = CronJob ''*/5 * * * *'' False)
   \<and> (\<exists>j. filter (\<lambda>j. Job_Id j = ''s2'')
             (Jobs (RescheduleBackups strict_runner (\<lambda>i. 9) registry)) = [j]
          \<and> \<not> Running j \<and> Task_def (job j) = OneTimeJob (AddDate 9 1000 0 0))
   \<and> filter (\<lambda>j. Job_Id j = ''s3'')
        (Jobs (RescheduleBackups strict_runner (\<lambda>i. 9) registry)) = []"
proof -
  have d: "distinct (map Schedule_Id (Schedules registry))" by (simp add: example_defs)
  have l: "0 < length (Schedules registry)" "1 < length (Schedules registry)"
    "2 < length (Schedules registry)"
    by (simp_all add: example_defs)
  have c: "creation_error strict_runner (\<lambda>i. 9) (0, Schedules registry ! 0) = None"
    "creation_error strict_runner (\<lambda>i. 9) (1, Schedules registry ! 1) = None"
    "creation_error strict_runner (\<lambda>i. 9) (2, Schedules registry ! 2) \<noteq> None"
    by (simp_all add: creation_error_def strict_runner_def example_defs)
  have e: "Cron (Schedules registry ! 0) = ''*/5 * * * *''" "Cron (Schedules registry ! 1) = []"
    by (simp_all add: example_defs)
  have i: "Schedule_Id (Schedules registry ! 0) = ''s1''"
    "Schedule_Id (Schedules registry ! 1) = ''s2''" "Schedule_Id (Schedules registry ! 2) = ''s3''"
    by (simp_all add: example_defs)
  have a0: "\<exists>j. filter (\<lambda>j. Job_Id j = ''s1'')
             (Jobs (RescheduleBackups strict_runner (\<lambda>i. 9) registry)) = [j]
          \<and> \<not> Running j \<and> Task_def (job j) = CronJob ''*/5 * * * *'' False"
    using rebuild_builds_jobs [OF d l(1), of strict_runner "\<lambda>i. 9"] c(1) e(1) i(1) by auto
  have a1: "\<exists>j. filter (\<lambda>j. Job_Id j = ''s2'')
             (Jobs (RescheduleBackups strict_runner (\<lambda>i. 9) registry)) = [j]
          \<and> \<not> Running j \<and> Task_def (job j) = OneTimeJob (AddDate 9 1000 0 0)"
    using rebuild_builds_jobs [OF d l(2), of strict_runner "\<lambda>i. 9"] c(2) e(2) i(2) by auto
  have a2: "filter (\<lambda>j. Job_Id j = ''s3'')
        (Jobs (RescheduleBackups strict_runner (\<lambda>i. 9) registry)) = []"
    using rebuild_builds_jobs [OF d l(3), of strict_runner "\<lambda>i. 9"] c(3) i(3) by auto
  from d l(3) c e a0 a1 a2 show ?thesis by simp
qed

text \<open>
  The schedule \<open>s3\<close> has a cron expression, which the runner refuses: the rebuild leaves
  no job with its id. And the task registered for \<open>s1\<close> before the rebuild is still
  registered with the runner after it, beside the new one.
\<close>

theorem rebuild_counterexample:
  "Cron sched_s3 \<noteq> [] \<and> sched_s3 \<in> set (Schedules registry)
   \<and> filter (\<lambda>j. Job_Id j = Schedule_Id sched_s3)
        (Jobs (RescheduleBackups strict_runner (\<lambda>i. 9) registry)) = []
   \<and> task_s1 \<in> set (Gocron registry)
   \<and> task_s1 \<in> set (Gocron (RescheduleBackups strict_runner (\<lambda>i. 9) registry))
   \<and> length (filter (\<lambda>t. Task_name t = ''s1'')
        (Gocron (RescheduleBackups strict_runner (\<lambda>i. 9) registry))) = 2"
  by (simp add: RescheduleBackups_def step_defs Let_def example_defs strict_runner_def)

text \<open>
  C8: a schedule whose task the runner refuses costs one error line in the log and
  nothing else. The jobs of the rebuilt registry are those of the schedules the runner
  accepts, all of them and in the order of the list, and the log gains the line of the
  rebuild and one error line for each schedule refused, carrying the runner's error. The
  rebuild has no other outcome: it is defined on every list and every runner.
\<close>

theorem rebuild_skips_failed_schedules:
  "map Job_Schedule (Jobs (RescheduleBackups newJob clock s)) =
     map snd (filter (\<lambda>p. creation_error newJob clock p = None) (enumerate 0 (Schedules s)))
   \<and> logged (RescheduleBackups newJob clock s) =
       logged s @ (LogInfo, ''Rescheduling backups'', []) #
       map (\<lambda>e. (LogError, ''Error creating Job'', [''err'', e]))
         (List.map_filter (creation_error newJob clock) (enumerate 0 (Schedules s)))"
  by (simp add: RescheduleBackups_def Let_def reschedule_range_schedules
      reschedule_range_logged step_defs)

section \<open>The lock around the registry\<close>

text \<open>The two writers that take the mutex keep every write between lock and unlock.\<close>

lemma locked_writers_keep_discipline:
  "lock_discipline False (drop (length (jmu_trace s)) (jmu_trace (SetRunningJob s ident)))
   \<and> lock_discipline False (drop (length (jmu_trace s)) (jmu_trace (DeleteRunningJob s ident)))"
  by (simp add: SetRunningJob_def DeleteRunningJob_def step_defs Let_def split: option.split)

lemma RecreateCtx_trace:
  "first_index (\<lambda>j. Task_name (job j) = name) (Jobs s) = Some i \<Longrightarrow>
     jmu_trace (RecreateCtx s name) = jmu_trace s @ [WriteCtx i, WriteCancel i]"
  by (simp add: RecreateCtx_def step_defs Let_def)

lemma RunJobById_trace:
  "first_index (\<lambda>j. Job_Id j = ident) (Jobs s) = Some i \<Longrightarrow>
     jmu_trace (RunJobById runNow s ident) = jmu_trace s @ [WriteForce i]"
  by (simp add: RunJobById_def step_defs Let_def split: option.split)

lemma reschedule_range_trace:
  "\<exists>n. jmu_trace (reschedule_range newJob clock i scheds s) = jmu_trace s @ replicate n WriteJobs"
proof (induction scheds arbitrary: i s)
  case Nil
  then show ?case by simp
next
  case (Cons schedule rest)
  show ?case
  proof (cases "creation_error newJob clock (i, schedule)")
    case (Some err)
    from Cons.IH [of "Suc i"
        "s\<lparr>logged := logged s @ [(LogError, ''Error creating Job'', [''err'', err])]\<rparr>"]
    show ?thesis
      unfolding reschedule_range_reject [OF Some] by simp
  next
    case None
    from reschedule_range_accept [OF None, of rest s] obtain tk j0 where
      step: "reschedule_range newJob clock i (schedule # rest) s =
        reschedule_range newJob clock (Suc i) rest
          (s\<lparr>Gocron := Gocron s @ [tk], Ctxs := Ctxs s @ [False], Jobs := Jobs s @ [j0],
             jmu_trace := jmu_trace s @ [WriteJobs]\<rparr>)"
      by blast
    from Cons.IH [of "Suc i" "s\<lparr>Gocron := Gocron s @ [tk], Ctxs := Ctxs s @ [False],
        Jobs := Jobs s @ [j0], jmu_trace := jmu_trace s @ [WriteJobs]\<rparr>"]
    obtain n where "jmu_trace (reschedule_range newJob clock i (schedule # rest) s) =
        (jmu_trace s @ [WriteJobs]) @ replicate n WriteJobs"
      unfolding step by auto
    then have "jmu_trace (reschedule_range newJob clock i (schedule # rest) s) =
        jmu_trace s @ replicate (Suc n) WriteJobs"
      by simp
    then show ?thesis by blast
  qed
qed

lemma RescheduleBackups_trace:
  "\<exists>n. jmu_trace (RescheduleBackups newJob clock s) = jmu_trace s @ replicate (Suc n) WriteJobs"
  using reschedule_range_trace [of newJob clock 0 "Schedules s"
      "logf LogInfo ''Rescheduling backups'' [] (access WriteJobs (s\<lparr>Jobs := []\<rparr>))"]
  by (simp add: RescheduleBackups_def Let_def step_defs)

text \<open>
  \<^verbatim>\<open>RecreateCtx\<close>, \<^verbatim>\<open>RunJobById\<close> and \<^verbatim>\<open>RescheduleBackups\<close> write to the registry and never
  take the mutex, whatever the state.
\<close>

lemma unlocked_writers_break_discipline:
  "(first_index (\<lambda>j. Task_name (job j) = name) (Jobs s) = Some i \<longrightarrow>
      \<not> lock_discipline False (drop (length (jmu_trace s)) (jmu_trace (RecreateCtx s name))))
   \<and> (first_index (\<lambda>j. Job_Id j = ident) (Jobs s) = Some k \<longrightarrow>
      \<not> lock_discipline False (drop (length (jmu_trace s)) (jmu_trace (RunJobById runNow s ident))))
   \<and> \<not> lock_discipline False
        (drop (length (jmu_trace s)) (jmu_trace (RescheduleBackups newJob clock s)))"
proof -
  obtain n where "jmu_trace (RescheduleBackups newJob clock s) =
      jmu_trace s @ replicate (Suc n) WriteJobs"
    using RescheduleBackups_trace by blast
  then show ?thesis
    by (simp add: RecreateCtx_trace RunJobById_trace)
qed

text \<open>
  C3 asks that every writer of a job's runtime state holds the registry's lock. On the
  example registry the writes of \<^verbatim>\<open>RecreateCtx\<close>, \<^verbatim>\<open>RunJobById\<close> and
  \<^verbatim>\<open>RescheduleBackups\<close> happen outside the lock, while \<^verbatim>\<open>SetRunningJob\<close> and
  \<^verbatim>\<open>DeleteRunningJob\<close> write inside it.
\<close>

theorem writes_outside_the_lock:
  "jmu_trace (RecreateCtx registry ''s1'') = [WriteCtx 0, WriteCancel 0]
   \<and> \<not> lock_discipline False (jmu_trace (RecreateCtx registry ''s1''))
   \<and> jmu_trace (RunJobById (\<lambda>u. None) registry ''s1'') = [WriteForce 0]
   \<and> \<not> lock_discipline False (jmu_trace (RunJobById (\<lambda>u. None) registry ''s1''))
   \<and> jmu_trace (RescheduleBackups strict_runner (\<lambda>i. 9) registry) =
       [WriteJobs, WriteJobs, WriteJobs]
   \<and> \<not> lock_discipline False (jmu_trace (RescheduleBackups strict_runner (\<lambda>i. 9) registry))
   \<and> jmu_trace (SetRunningJob registry ''s1'') = [MuLock, WriteRunning 0, MuUnlock]
   \<and> lock_discipline False (jmu_trace (SetRunningJob registry ''s1''))
   \<and> lock_discipline False (jmu_trace (DeleteRunningJob registry ''s1''))"
  by (simp add: RecreateCtx_def RunJobById_def RescheduleBackups_def SetRunningJob_def
      DeleteRunningJob_def step_defs Let_def example_defs strict_runner_def)

section \<open>The hub\<close>

text \<open>
  When every write succeeds, a broadcast hands the payload to every client, in the order
  of the range, and the hub goes on serving. When the write to some client fails, the hub
  is stuck in its own send: the clients before the first failing one have the payload,
  the failing one is still in the client set and is not closed, the clients after it get
  nothing, and no later message is received.
\<close>

lemma broadcast_range_delivers:
  "\<forall>c\<in>set cs. werr c message = None \<Longrightarrow>
     \<exists>h'. broadcast_range werr addr message cs h = Serving h'
       \<and> written h' = written h @ map (\<lambda>c. (c, TextMessage message)) cs
       \<and> clients h' = clients h \<and> closed h' = closed h"
proof (induction cs arbitrary: h)
  case Nil
  then show ?case by simp
next
  case (Cons c cs)
  then have ok: "werr c message = None" and rest: "\<forall>c\<in>set cs. werr c message = None"
    by simp_all
  from Cons.IH [OF rest, of "hlog LogDebug ''message sent'' [''addr'', addr c]
      (h\<lparr>written := written h @ [(c, TextMessage message)]\<rparr>)"] ok
  show ?case by (simp add: hlog_def)
qed

lemma broadcast_range_stuck:
  "c \<in> set cs \<Longrightarrow> werr c message \<noteq> None \<Longrightarrow>
     \<exists>h' c'. broadcast_range werr addr message cs h = Stuck h' c'
       \<and> werr c' message \<noteq> None
       \<and> written h' = written h @ map (\<lambda>c. (c, TextMessage message))
            (takeWhile (\<lambda>c. werr c message = None) cs)
       \<and> clients h' = clients h \<and> closed h' = closed h"
proof (induction cs arbitrary: h)
  case Nil
  then show ?case by simp
next
  case (Cons a cs)
  show ?case
  proof (cases "werr a message")
    case (Some err)
    then show ?thesis by (simp add: hlog_def)
  next
    case None
    with Cons.prems have "c \<in> set cs" by auto
    from Cons.IH [OF this Cons.prems(2), of "hlog LogDebug ''message sent'' [''addr'', addr a]
      (h\<lparr>written := written h @ [(a, TextMessage message)]\<rparr>)"] None
    show ?thesis by (simp add: hlog_def)
  qed
qed

lemma failed_write_stops_the_hub:
  assumes "c \<in> fst ` set (clients h)" and "werr c message \<noteq> None"
  shows "\<exists>h' c'. runHub werr addr h ((now, Broadcast message) # later) = Stuck h' c'
       \<and> werr c' message \<noteq> None
       \<and> written h' = written h @ map (\<lambda>c. (c, TextMessage message))
            (takeWhile (\<lambda>c. werr c message = None) (map fst (clients h)))
       \<and> clients h' = clients h \<and> closed h' = closed h"
proof -
  from assms(1) have "c \<in> set (map fst (clients h))" by simp
  with assms(2) broadcast_range_stuck [of c "map fst (clients h)" werr message addr h]
  show ?thesis by (auto simp: hub_broadcast_def)
qed

lemma outsiders_leave_clients:
  "fst (cleanClients_pass now h) = h"
  "clients (fst (handler_accept c h)) = clients h"
  "clients (fst (handler_exit c h)) = clients h"
  by (simp_all add: cleanClients_pass_def handler_accept_def handler_exit_def)

lemma handlePing_turn_writes:
  assumes "first_index (\<lambda>(connection, client). addr connection = addr c) (clients h) = Some i"
  shows "handlePing_turn addr c None now h =
     (h\<lparr>clients := AList.update (fst (clients h ! i)) ((snd (clients h ! i))\<lparr>LastSeen := now\<rparr>)
          (clients h)\<rparr>, [])"
  using assms by (simp add: handlePing_turn_def split: prod.split)

text \<open>
  C2 asks that a viewer whose write fails is unregistered and closed, and that the others
  still get the payload. With three viewers of which the second fails, the first has the
  payload; the hub then sits in \<^verbatim>\<open>unregister <- connection\<close>: the second viewer stays in
  the client set, no connection is closed, the third viewer gets nothing, and the two
  messages that follow are never received.
\<close>

theorem failed_write_blocks_the_hub:
  "runHub broken2 peer hub3 [(20, Broadcast payload1), (21, Unregister 2), (22, Broadcast payload1)] =
     Stuck (hub3\<lparr>written := [(1, TextMessage payload1)],
                 hub_log := [(LogDebug, ''message sent'', [''addr'', ''10.0.0.1:40001'']),
                             (LogError, ''write error:'', [''broken pipe''])]\<rparr>) 2"
  by (simp add: hub_broadcast_def hub3_def broken2_def peer_def hlog_def)

text \<open>
  C5 asks that only the hub's loop writes the client set. The sweep and the handler leave
  it alone and send on the hub's channels; a turn of \<^verbatim>\<open>handlePing\<close> after a successful
  read stores a record in the map itself and sends nothing.
\<close>

theorem ping_handler_writes_clients:
  "handlePing_turn peer 2 None 50 hub3 =
     (hub3\<lparr>clients := [(1, \<lparr>LastSeen = 10\<rparr>), (2, \<lparr>LastSeen = 50\<rparr>), (3, \<lparr>LastSeen = 10\<rparr>)]\<rparr>, [])
   \<and> cleanClients_pass 2100000000 hub3 = (hub3, [Unregister 1, Unregister 2, Unregister 3])
   \<and> clients (fst (handler_accept 4 hub3)) = clients hub3
   \<and> clients (fst (handler_exit 3 hub3)) = clients hub3"
  by (simp add: handlePing_turn_def cleanClients_pass_def handler_accept_def handler_exit_def
      hub3_def peer_def)

section \<open>Stopping a job, unregistering twice\<close>






section \<open>The viewer session\<close>

text \<open>Storing a record, as a recursion over the slice.\<close>

lemma store_Nil: "store m [] = [m]"
  by (simp add: store_def)

lemma store_Cons:
  "store m (x # xs) = (if WsMsg_Id x = WsMsg_Id m then m # xs else x # store m xs)"
  by (simp add: store_def split: option.split)

lemma store_ids:
  "set (map WsMsg_Id (store m xs)) = insert (WsMsg_Id m) (set (map WsMsg_Id xs))"
  by (induction xs) (auto simp: store_Nil store_Cons)

lemma store_distinct:
  "distinct (map WsMsg_Id xs) \<Longrightarrow> distinct (map WsMsg_Id (store m xs))"
proof (induction xs)
  case Nil
  then show ?case by (simp add: store_Nil)
next
  case (Cons x xs)
  then show ?case
    using store_ids [of m xs] by (auto simp: store_Cons)
qed

lemma store_same:
  "distinct (map WsMsg_Id xs) \<Longrightarrow>
     filter (\<lambda>w. WsMsg_Id w = WsMsg_Id m) (store m xs) = [m]"
proof (induction xs)
  case Nil
  then show ?case by (simp add: store_Nil)
next
  case (Cons x xs)
  show ?case
  proof (cases "WsMsg_Id x = WsMsg_Id m")
    case True
    with Cons.prems have "\<forall>w\<in>set xs. WsMsg_Id w \<noteq> WsMsg_Id m" by (metis distinct.simps(2) imageI list.simps(9) set_map)
    then have "filter (\<lambda>w. WsMsg_Id w = WsMsg_Id m) xs = []" by (simp add: filter_empty_conv)
    with True show ?thesis by (simp add: store_Cons)
  next
    case False
    with Cons show ?thesis by (simp add: store_Cons)
  qed
qed

lemma store_other:
  "k \<noteq> WsMsg_Id m \<Longrightarrow>
     filter (\<lambda>w. WsMsg_Id w = k) (store m xs) = filter (\<lambda>w. WsMsg_Id w = k) xs"
  by (induction xs) (auto simp: store_Nil store_Cons)

lemma outs_output_case:
  "outs (fst (output_case v c)) =
     (if ChanMsg_Id c \<noteq> [] then store \<lparr>WsMsg_Id = ChanMsg_Id c, Out = Msg c, Err = []\<rparr> (outs v)
      else outs v)"
  by (simp add: output_case_def Let_def slog_def Marshal_def)

lemma sent_output_case:
  "snd (output_case v c) =
     [Broadcast (JArray (map (\<lambda>m. JObject [(''id'', JString (WsMsg_Id m)),
                                       (''out'', JString (Out m)),
                                       (''err'', JString (Err m))])
        (filter (\<lambda>w. Out w \<noteq> [] \<and> Out w \<noteq> ''{}'') (outs (fst (output_case v c))))))]"
  by (simp add: output_case_def Let_def slog_def Marshal_def)

lemma event_loop_output:
  "event_loop v (map OnOutputChan (c # cs)) =
     (fst (event_loop (fst (output_case v c)) (map OnOutputChan cs)),
      snd (output_case v c) @ snd (event_loop (fst (output_case v c)) (map OnOutputChan cs)))"
  by (simp split: prod.split)

lemma outs_distinct:
  "distinct (map WsMsg_Id (outs v)) \<Longrightarrow>
     distinct (map WsMsg_Id (outs (fst (event_loop v (map OnOutputChan cs)))))"
proof (induction cs arbitrary: v)
  case Nil
  then show ?case by simp
next
  case (Cons c cs)
  have "distinct (map WsMsg_Id (outs (fst (output_case v c))))"
    using Cons.prems by (simp add: outs_output_case store_distinct)
  from Cons.IH [OF this] show ?case
    by (simp only: event_loop_output fst_conv)
qed

lemma outs_latest:
  assumes "distinct (map WsMsg_Id (outs v))" and "k \<noteq> []"
  shows "filter (\<lambda>w. WsMsg_Id w = k) (outs (fst (event_loop v (map OnOutputChan cs)))) =
     (if filter (\<lambda>e. ChanMsg_Id e = k) cs = [] then filter (\<lambda>w. WsMsg_Id w = k) (outs v)
      else [\<lparr>WsMsg_Id = k, Out = Msg (last (filter (\<lambda>e. ChanMsg_Id e = k) cs)), Err = []\<rparr>])"
  using assms(1)
proof (induction cs arbitrary: v)
  case Nil
  then show ?case by simp
next
  case (Cons c cs)
  define v1 where "v1 = fst (output_case v c)"
  have d1: "distinct (map WsMsg_Id (outs v1))"
    using Cons.prems by (simp add: v1_def outs_output_case store_distinct)
  have step: "outs (fst (event_loop v (map OnOutputChan (c # cs)))) =
      outs (fst (event_loop v1 (map OnOutputChan cs)))"
    by (simp only: event_loop_output fst_conv v1_def)
  have here: "filter (\<lambda>w. WsMsg_Id w = k) (outs v1) =
      (if ChanMsg_Id c = k then [\<lparr>WsMsg_Id = k, Out = Msg c, Err = []\<rparr>]
       else filter (\<lambda>w. WsMsg_Id w = k) (outs v))"
  proof (cases "ChanMsg_Id c = k")
    case True
    with assms(2) Cons.prems
      store_same [of "outs v" "\<lparr>WsMsg_Id = ChanMsg_Id c, Out = Msg c, Err = []\<rparr>"]
    show ?thesis by (simp add: v1_def outs_output_case)
  next
    case False
    with store_other [of k "\<lparr>WsMsg_Id = ChanMsg_Id c, Out = Msg c, Err = []\<rparr>" "outs v"]
    show ?thesis by (simp add: v1_def outs_output_case)
  qed
  show ?case
    unfolding step Cons.IH [OF d1] here by simp
qed

lemma outs_ids:
  "WsMsg_Id ` set (outs (fst (event_loop v (map OnOutputChan cs)))) =
     WsMsg_Id ` set (outs v) \<union> {i \<in> ChanMsg_Id ` set cs. i \<noteq> []}"
proof (induction cs arbitrary: v)
  case Nil
  then show ?case by simp
next
  case (Cons c cs)
  have here: "WsMsg_Id ` set (outs (fst (output_case v c))) =
      WsMsg_Id ` set (outs v) \<union> (if ChanMsg_Id c \<noteq> [] then {ChanMsg_Id c} else {})"
    using store_ids [of "\<lparr>WsMsg_Id = ChanMsg_Id c, Out = Msg c, Err = []\<rparr>" "outs v"]
    by (simp add: outs_output_case)
  have "WsMsg_Id ` set (outs (fst (event_loop v (map OnOutputChan (c # cs))))) =
      WsMsg_Id ` set (outs (fst (event_loop (fst (output_case v c)) (map OnOutputChan cs))))"
    by (simp only: event_loop_output fst_conv)
  also have "\<dots> = WsMsg_Id ` set (outs (fst (output_case v c))) \<union>
      {i \<in> ChanMsg_Id ` set cs. i \<noteq> []}"
    by (rule Cons.IH)
  also have "\<dots> = WsMsg_Id ` set (outs v) \<union> {i \<in> ChanMsg_Id ` set (c # cs). i \<noteq> []}"
    unfolding here by auto
  finally show ?case .
qed

lemma sent_filtered:
  "\<forall>b\<in>set (snd (event_loop v (map OnOutputChan cs))).
     \<exists>j. b = Broadcast j \<and>
       (\<forall>obj\<in>set (elements j). \<exists>p. member_string ''out'' obj = Some p \<and> p \<noteq> [] \<and> p \<noteq> ''{}'')"
proof (induction cs arbitrary: v)
  case Nil
  then show ?case by simp
next
  case (Cons c cs)
  have "\<forall>b\<in>set (snd (output_case v c)).
     \<exists>j. b = Broadcast j \<and>
       (\<forall>obj\<in>set (elements j). \<exists>p. member_string ''out'' obj = Some p \<and> p \<noteq> [] \<and> p \<noteq> ''{}'')"
    by (auto simp: sent_output_case)
  with Cons.IH [of "fst (output_case v c)"] show ?case
    by (simp only: event_loop_output snd_conv set_append ball_Un)
qed

text \<open>
  C6, as the code has it: after any sequence of success events the table holds at most
  one record per id; for every event of the sequence whose id is not empty it holds
  exactly one record with that id, carrying the payload of the last event with that id;
  and every object of every payload sent to the hub has an \<^verbatim>\<open>out\<close> that is neither empty
  nor \<^verbatim>\<open>{}\<close>. Events with an empty id are not stored: the ids of the table are the
  non-empty ids of the events, and no record of the table has the empty id.
\<close>

theorem outs_last_write_wins:
  "distinct (map WsMsg_Id (outs (fst (event_loop new_session (map OnOutputChan cs)))))
   \<and> (\<forall>c\<in>set cs. ChanMsg_Id c \<noteq> [] \<longrightarrow>
         filter (\<lambda>w. WsMsg_Id w = ChanMsg_Id c)
           (outs (fst (event_loop new_session (map OnOutputChan cs)))) =
         [\<lparr>WsMsg_Id = ChanMsg_Id c,
           Out = Msg (last (filter (\<lambda>e. ChanMsg_Id e = ChanMsg_Id c) cs)), Err = []\<rparr>])
   \<and> WsMsg_Id ` set (outs (fst (event_loop new_session (map OnOutputChan cs)))) =
       {i \<in> ChanMsg_Id ` set cs. i \<noteq> []}
   \<and> (\<forall>w\<in>set (outs (fst (event_loop new_session (map OnOutputChan cs)))). WsMsg_Id w \<noteq> [])
   \<and> (\<forall>b\<in>set (snd (event_loop new_session (map OnOutputChan cs))).
         \<exists>j. b = Broadcast j \<and>
           (\<forall>obj\<in>set (elements j).
              \<exists>p. member_string ''out'' obj = Some p \<and> p \<noteq> [] \<and> p \<noteq> ''{}''))"
proof -
  have d: "distinct (map WsMsg_Id (outs new_session))" by (simp add: new_session_def)
  have a: "distinct (map WsMsg_Id (outs (fst (event_loop new_session (map OnOutputChan cs)))))"
    using d by (rule outs_distinct)
  have b: "filter (\<lambda>w. WsMsg_Id w = ChanMsg_Id c)
           (outs (fst (event_loop new_session (map OnOutputChan cs)))) =
         [\<lparr>WsMsg_Id = ChanMsg_Id c,
           Out = Msg (last (filter (\<lambda>e. ChanMsg_Id e = ChanMsg_Id c) cs)), Err = []\<rparr>]"
    if "c \<in> set cs" "ChanMsg_Id c \<noteq> []" for c
  proof -
    from that(1) have "filter (\<lambda>e. ChanMsg_Id e = ChanMsg_Id c) cs \<noteq> []"
      by (auto simp: filter_empty_conv)
    with outs_latest [OF d that(2), of cs] show ?thesis by simp
  qed
  have i: "WsMsg_Id ` set (outs (fst (event_loop new_session (map OnOutputChan cs)))) =
       {i \<in> ChanMsg_Id ` set cs. i \<noteq> []}"
    using outs_ids [of new_session cs] by (simp add: new_session_def)
  then have n: "\<forall>w\<in>set (outs (fst (event_loop new_session (map OnOutputChan cs)))).
      WsMsg_Id w \<noteq> []"
    by blast
  from a b i n sent_filtered [of new_session cs] show ?thesis by blast
qed

theorem outs_last_write_wins_witness:
  "\<lparr>ChanMsg_Id = ''a'', Msg = ''Y'', Time = 3\<rparr> \<in> set events_aba
   \<and> WsMsg_Id ` set (outs (fst (event_loop new_session (map OnOutputChan events_aba)))) =
       {''a'', ''b''}
   \<and> WsMsg_Id ` set (outs (fst (event_loop new_session (map OnOutputChan events_noid)))) = {}
   \<and> filter (\<lambda>w. WsMsg_Id w = ''a'')
        (outs (fst (event_loop new_session (map OnOutputChan events_aba)))) =
       [\<lparr>WsMsg_Id = ''a'', Out = ''Y'', Err = []\<rparr>]
   \<and> snd (event_loop new_session (map OnOutputChan events_aba)) =
       [Broadcast (JArray [JObject [(''id'', JString ''a''), (''out'', JString ''X''),
                                    (''err'', JString [])]]),
        Broadcast (JArray [JObject [(''id'', JString ''a''), (''out'', JString ''X''),
                                    (''err'', JString [])]]),
        Broadcast (JArray [JObject [(''id'', JString ''a''), (''out'', JString ''Y''),
                                    (''err'', JString [])]])]"
proof -
  define ev where "ev = \<lparr>ChanMsg_Id = ''a'', Msg = ''Y'', Time = 3\<rparr>"
  have m: "ev \<in> set events_aba" by (simp add: ev_def events_aba_def)
  have i: "ChanMsg_Id ev \<noteq> []" by (simp add: ev_def)
  have l: "last (filter (\<lambda>e. ChanMsg_Id e = ChanMsg_Id ev) events_aba) = ev"
    by (simp add: ev_def events_aba_def)
  from outs_last_write_wins [of events_aba] m i
  have "filter (\<lambda>w. WsMsg_Id w = ChanMsg_Id ev)
          (outs (fst (event_loop new_session (map OnOutputChan events_aba)))) =
        [\<lparr>WsMsg_Id = ChanMsg_Id ev,
          Out = Msg (last (filter (\<lambda>e. ChanMsg_Id e = ChanMsg_Id ev) events_aba)), Err = []\<rparr>]"
    by blast
  then have a: "filter (\<lambda>w. WsMsg_Id w = ''a'')
        (outs (fst (event_loop new_session (map OnOutputChan events_aba)))) =
       [\<lparr>WsMsg_Id = ''a'', Out = ''Y'', Err = []\<rparr>]"
    unfolding l by (simp add: ev_def)
  have b: "snd (event_loop new_session (map OnOutputChan events_aba)) =
       [Broadcast (JArray [JObject [(''id'', JString ''a''), (''out'', JString ''X''),
                                    (''err'', JString [])]]),
        Broadcast (JArray [JObject [(''id'', JString ''a''), (''out'', JString ''X''),
                                    (''err'', JString [])]]),
        Broadcast (JArray [JObject [(''id'', JString ''a''), (''out'', JString ''Y''),
                                    (''err'', JString [])]])]"
    by (simp add: events_aba_def new_session_def output_case_def Let_def slog_def Marshal_def
        store_Nil store_Cons)
  from outs_last_write_wins [of events_aba]
  have "WsMsg_Id ` set (outs (fst (event_loop new_session (map OnOutputChan events_aba)))) =
       {i \<in> ChanMsg_Id ` set events_aba. i \<noteq> []}"
    by blast
  also have "\<dots> = {''a'', ''b''}" by (auto simp: events_aba_def)
  finally have s: "WsMsg_Id ` set (outs (fst (event_loop new_session
      (map OnOutputChan events_aba)))) = {''a'', ''b''}" .
  from outs_last_write_wins [of events_noid]
  have "WsMsg_Id ` set (outs (fst (event_loop new_session (map OnOutputChan events_noid)))) =
       {i \<in> ChanMsg_Id ` set events_noid. i \<noteq> []}"
    by blast
  also have "\<dots> = {}" by (auto simp: events_noid_def)
  finally have e: "WsMsg_Id ` set (outs (fst (event_loop new_session
      (map OnOutputChan events_noid)))) = {}" .
  from m a b s e show ?thesis by (simp add: ev_def)
qed

text \<open>
  Two success events with the empty id, \<open>X\<close> then \<open>Y\<close>: the table holds no record for
  that id, where the claim as stated has exactly one, holding \<open>Y\<close>.
\<close>

theorem empty_id_events_are_not_stored:
  "outs (fst (event_loop new_session (map OnOutputChan events_noid))) = []
   \<and> filter (\<lambda>w. WsMsg_Id w = [])
        (outs (fst (event_loop new_session (map OnOutputChan events_noid)))) \<noteq>
       [\<lparr>WsMsg_Id = [], Out = ''Y'', Err = []\<rparr>]"
  by (simp add: events_noid_def new_session_def output_case_def Let_def slog_def Marshal_def)

end
